theory Spec2Isabelle
  imports Main "HOL-Library.Word"
begin

section \<open>The decision tree of \<open>src/decision_tree.js\<close>\<close>

text \<open>
  The class \<open>DecisionTree\<close> keeps two objects: \<open>this.config\<close> (the tree's id, its
  steps and the first of them) and \<open>this.storage\<close> (the active step and the history
  of visited steps), and it mirrors \<open>this.storage\<close> into the browser's
  \<open>localStorage\<close> under the key \<open>config.id\<close>.

  What is modelled: the steps, the storage object, the local storage item, the
  warnings \<open>_loadSteps\<close> and \<open>activate\<close> write to the console, and the exceptions
  a method raises when it reads a property of \<open>undefined\<close>. The DOM (\<open>hide\<close>,
  \<open>show\<close>, \<open>_cleanHTML\<close>, \<open>_showSummary\<close>, \<open>toggleFooter\<close>,
  \<open>trackAttribute\<close>, \<open>cookie\<close>) and the analytics calls (\<open>trackGA\<close>) are not
  modelled. None of them writes \<open>this.storage\<close>, \<open>this.config\<close> or the local
  storage. What they contribute to a method is whether it returns:
  \<^item> \<open>hide\<close> and \<open>show\<close> catch their own exceptions, and the analytics calls are
    taken to return (they do nothing when the page defines neither \<open>gtag\<close> nor
    \<open>ga\<close>); so the calls that precede the change of \<open>this.storage\<close> in a method
    return;
  \<^item> the calls that follow \<open>_saveStorage\<close> in a method may raise
    (\<open>_showSummary\<close> reads an attribute of the element of the active step, and raises
    a TypeError when the tree has no such element). How they complete is a parameter
    \<open>domc\<close> of the method's model, and is how the method completes once it has saved.
  The tree's own element exists and ids are valid in selectors.
\<close>

subsection \<open>Values\<close>

text \<open>
  A JavaScript string is a sequence of 16-bit code units. \<open>js\<close> writes one from a
  literal: the code unit of a character is its code.
\<close>

type_synonym code_unit = "16 word"
type_synonym jsstring = "code_unit list"

definition js :: "string \<Rightarrow> jsstring" where
  [simp]: "js s = map (\<lambda>c. of_nat (of_char c)) s"

text \<open>
  A JavaScript value that is a string or is missing: \<open>Some s\<close> is the string \<open>s\<close>,
  \<open>None\<close> is \<open>undefined\<close> (or \<open>null\<close>, which the code never tells apart from it:
  both are falsy, both are replaced by \<open>??\<close>, neither equals a string).
\<close>

type_synonym jsstr = "jsstring option"

text \<open>\<open>!v\<close> is false exactly for a non-empty string.\<close>

definition truthy :: "jsstr \<Rightarrow> bool" where
  "truthy v = (case v of None \<Rightarrow> False | Some s \<Rightarrow> s \<noteq> [])"

text \<open>
  \<open>this.config = {id, first_step: steps[0], steps}\<close>. \<open>steps[0]\<close> of an empty array
  is \<open>undefined\<close>.
\<close>

record config =
  tree_id :: jsstring
  first_step :: jsstr
  steps :: "jsstring list"

text \<open>
  The object held in \<open>this.storage\<close> and, serialised, in the local storage:
  \<open>{first_step, active, history}\<close>. Each property may be missing; \<open>history\<close>, when
  present, is an array. An array element is a string, or \<open>undefined\<close> when
  \<open>config.first_step\<close> was written into it for an empty list of steps.
\<close>

record storage =
  s_first_step :: jsstr
  active :: jsstr
  history :: "jsstr list option"

text \<open>
  The local storage item under the key \<open>config.id\<close>. \<open>None\<close>: there is no item
  (\<open>getItem\<close> returns \<open>null\<close>). \<open>Some None\<close>: the item is the object \<open>{}\<close>.
  \<open>Some (Some st)\<close>: the item is \<open>{[config.id]: st}\<close>. The parsed object has no key
  but \<open>config.id\<close>.
\<close>

type_synonym wrapper = "storage option"
type_synonym local_storage = "wrapper option"

datatype error = TypeError | SyntaxError | Error jsstring

datatype completion = Normal | Throw error

text \<open>
  What \<open>this.storage\<close> holds when \<open>_saveStorage\<close> reads it: the storage object, or,
  after the assignment \<open>this.storage = storage\<close> of \<open>_validateHistory\<close>, the whole
  object parsed from the local storage item.
\<close>

datatype this_storage = StateObj storage | WrapperObj wrapper

text \<open>The instance, with the part of the browser it writes.\<close>

record decision_tree =
  config :: config
  storage :: storage
  localStorage :: local_storage
  console :: "jsstring list"

subsection \<open>Strings\<close>

text \<open>
  \<open>s.split(c)\<close> for a one-character separator: the pieces between the occurrences of
  \<open>c\<close>, empty pieces included; the empty string gives one empty piece.
\<close>

fun js_split :: "code_unit \<Rightarrow> jsstring \<Rightarrow> jsstring list" where
  "js_split c [] = [[]]"
| "js_split c (x # xs) =
     (if x = c then [] # js_split c xs
      else (case js_split c xs of [] \<Rightarrow> [[x]] | w # ws \<Rightarrow> (x # w) # ws))"

text \<open>
  \<open>s.trim()\<close> removes white space and line terminators at both ends. White space
  is tab, vertical tab, form feed, space, no-break space, the byte order mark and the
  space separators of Unicode (U+1680, U+2000 to U+200A, U+202F, U+205F, U+3000); the
  line terminators are line feed, carriage return, U+2028 and U+2029. The space is
  \<open>0x20\<close> and the comma \<open>0x2C\<close>.
\<close>

definition is_white :: "code_unit \<Rightarrow> bool" where
  "is_white c =
     (c \<in> set [0x09, 0x0B, 0x0C, 0x20, 0xA0, 0xFEFF,
                0x1680, 0x2000, 0x2001, 0x2002, 0x2003, 0x2004, 0x2005, 0x2006, 0x2007,
                0x2008, 0x2009, 0x200A, 0x202F, 0x205F, 0x3000,
                0x0A, 0x0D, 0x2028, 0x2029])"

definition trim :: "jsstring \<Rightarrow> jsstring" where
  "trim s = rev (dropWhile is_white (rev (dropWhile is_white s)))"

subsection \<open>Steps and storage\<close>

text \<open>
  \<open>_loadSteps\<close>: the ids of the \<open>.step\<close> elements in document order (the argument
  \<open>ids\<close>), with a warning when there is none. The array is returned either way.
\<close>

definition loadSteps :: "jsstring list \<Rightarrow> jsstring list \<Rightarrow> jsstring list \<times> jsstring list" where
  "loadSteps ids cons =
     (let steps = ids in
      if length steps < 1
      then (steps, cons @ [js ''Decision tree should have at least one step.''])
      else (steps, cons))"

text \<open>
  \<open>_saveStorage\<close>. It parses the item, sets \<open>storage[config.id] = this.storage\<close>,
  replaces the object by \<open>{}\<close> when \<open>!this.storage.active || !this.storage.history\<close>,
  and writes it. The item it read has no other key, so what is written does not depend
  on it. When \<open>this.storage\<close> is the parsed object, its properties \<open>active\<close> and
  \<open>history\<close> are looked up among its keys; its only key is \<open>config.id\<close>, so one of the
  two is \<open>undefined\<close> and \<open>{}\<close> is written.
\<close>

fun saveStorage :: "this_storage \<Rightarrow> local_storage \<Rightarrow> local_storage" where
  "saveStorage (StateObj st) ls =
     (if \<not> truthy (active st) \<or> history st = None then Some None else Some (Some st))"
| "saveStorage (WrapperObj w) ls = Some None"

text \<open>\<open>steps.indexOf(val) !== -1\<close>, with strict equality.\<close>

definition in_steps :: "jsstring list \<Rightarrow> jsstr \<Rightarrow> bool" where
  "in_steps ss val = (case val of None \<Rightarrow> False | Some s \<Rightarrow> s \<in> set ss)"

text \<open>
  \<open>_validateHistory\<close>, on the entry \<open>storage[config.id]\<close> of the parsed object. It
  returns the entry and the local storage item. \<open>config.steps\<close> is an array, so the
  conditional that would reload the steps takes its first branch. The assignment
  \<open>this.storage = storage\<close> stores the parsed object, not its entry, and
  \<open>_saveStorage\<close> reads that; the constructor then overwrites \<open>this.storage\<close> with
  what \<open>_loadStorage\<close> returns.
\<close>

definition validateHistory :: "config \<Rightarrow> storage \<Rightarrow> local_storage \<Rightarrow> storage \<times> local_storage" where
  "validateHistory cfg entry ls =
     (let hist = (case history entry of None \<Rightarrow> [] | Some h \<Rightarrow> h) in
      if length hist > 0 \<and> length (steps cfg) > 0 then
        (let valid = list_all (in_steps (steps cfg)) hist in
         if valid = False then
           (let entry' = entry\<lparr>history := Some [first_step cfg], active := first_step cfg\<rparr>
            in (entry', saveStorage (WrapperObj (Some entry')) ls))
         else (entry, ls))
      else (entry, ls))"

text \<open>\<open>_loadStorage\<close>: the validated entry when the item has one, a fresh object otherwise.\<close>

definition loadStorage :: "config \<Rightarrow> local_storage \<Rightarrow> storage \<times> local_storage" where
  "loadStorage cfg ls =
     (let parsed = (case ls of None \<Rightarrow> None | Some w \<Rightarrow> w) in
      case parsed of
        Some entry \<Rightarrow> validateHistory cfg entry ls
      | None \<Rightarrow>
          (\<lparr>s_first_step = first_step cfg, active = first_step cfg,
            history = Some [first_step cfg]\<rparr>, ls))"

subsection \<open>Activation and construction\<close>

text \<open>
  \<open>activate\<close> is one \<open>try\<close> block of DOM calls that ends with \<open>_saveStorage()\<close>; its
  \<open>catch\<close> hides the tree and warns. \<open>dom_ok\<close> says whether the DOM calls of the block
  return; when one raises, nothing is saved.
\<close>

definition activate :: "bool \<Rightarrow> decision_tree \<Rightarrow> decision_tree" where
  "activate dom_ok this =
     (if dom_ok
      then this\<lparr>localStorage := saveStorage (StateObj (storage this)) (localStorage this)\<rparr>
      else this\<lparr>console := console this @
             [(js ''Cannot activate decision tree with ID '') @ tree_id (config this) @
              (js ''. Incorrect HTML structure.'')]\<rparr>)"

text \<open>\<open>Array.isArray\<close> of what \<open>_loadSteps\<close> returns: the array it built.\<close>

definition Array_isArray :: "jsstring list \<Rightarrow> bool" where
  "Array_isArray xs = True"

text \<open>
  The constructor, for the element \<open>i\<close> whose \<open>.step\<close> elements have the ids \<open>ids\<close>.
  (\<open>_validation\<close> only warns about missing attributes of the DOM.)
\<close>

definition constructor_dt ::
    "jsstring \<Rightarrow> jsstring list \<Rightarrow> local_storage \<Rightarrow> bool \<Rightarrow> error + decision_tree" where
  "constructor_dt i ids ls dom_ok =
     (case loadSteps ids [] of (ss, cons) \<Rightarrow>
        if Array_isArray ss then
          (let cfg = \<lparr>tree_id = i, first_step = (case ss of [] \<Rightarrow> None | s # _ \<Rightarrow> Some s),
                      steps = ss\<rparr>
           in case loadStorage cfg ls of (st, ls') \<Rightarrow>
                Inr (activate dom_ok
                      \<lparr>config = cfg, storage = st, localStorage = ls', console = cons\<rparr>))
        else Inl (Error (js ''Please follow proper HTML structure.'')))"

subsection \<open>Transitions\<close>

text \<open>
  \<open>trackAnswer(nextStep, datakey)\<close>. \<open>datakey\<close> goes to the analytics call only.
  \<open>this.storage.active\<close> is assigned before \<open>this.storage.history.push\<close>, which raises
  a TypeError when there is no history. After \<open>_saveStorage\<close> come
  \<open>trackAttribute\<close>, \<open>_showSummary\<close> and \<open>toggleFooter\<close>, which complete as
  \<open>domc\<close>.
\<close>

definition trackAnswer ::
    "jsstring \<Rightarrow> jsstr \<Rightarrow> completion \<Rightarrow> decision_tree \<Rightarrow> completion \<times> decision_tree" where
  "trackAnswer nextStep datakey domc this =
     (let st1 = (storage this)\<lparr>active := Some nextStep\<rparr> in
      case history st1 of
        None \<Rightarrow> (Throw TypeError, this\<lparr>storage := st1\<rparr>)
      | Some h \<Rightarrow>
          (let st2 = st1\<lparr>history := Some (h @ [active st1])\<rparr>
           in (domc, this\<lparr>storage := st2,
                         localStorage := saveStorage (StateObj st2) (localStorage this)\<rparr>)))"

text \<open>
  \<open>trackBackButton\<close>. It returns at once when the history has at most one element,
  and raises a TypeError on \<open>.length\<close> when there is no history. After
  \<open>_saveStorage\<close> come \<open>trackAttribute\<close> and \<open>toggleFooter\<close>.
\<close>

definition trackBackButton :: "completion \<Rightarrow> decision_tree \<Rightarrow> completion \<times> decision_tree" where
  "trackBackButton domc this =
     (case history (storage this) of
        None \<Rightarrow> (Throw TypeError, this)
      | Some h \<Rightarrow>
          if length h \<le> 1 then (Normal, this)
          else
            (let previousStep = h ! (length h - 2);
                 st' = (storage this)\<lparr>active := previousStep, history := Some (butlast h)\<rparr>
             in (domc, this\<lparr>storage := st',
                           localStorage := saveStorage (StateObj st') (localStorage this)\<rparr>)))"

text \<open>
  \<open>trackRestartButton\<close>. After \<open>_saveStorage\<close> come \<open>trackAttribute\<close>,
  \<open>toggleFooter\<close> and \<open>_cleanHTML\<close>.
\<close>

definition trackRestartButton :: "completion \<Rightarrow> decision_tree \<Rightarrow> completion \<times> decision_tree" where
  "trackRestartButton domc this =
     (let st' = (storage this)\<lparr>active := first_step (config this),
                                history := Some [first_step (config this)]\<rparr>
      in (domc, this\<lparr>storage := st',
                    localStorage := saveStorage (StateObj st') (localStorage this)\<rparr>))"

subsection \<open>The summary filter\<close>

text \<open>
  \<open>xs.every(p)\<close> where \<open>p\<close> may raise: it stops at the first element that fails, and
  an exception of \<open>p\<close> ends it.
\<close>

fun every_e :: "('a \<Rightarrow> error + bool) \<Rightarrow> 'a list \<Rightarrow> error + bool" where
  "every_e p [] = Inr True"
| "every_e p (x # xs) =
     (case p x of Inl e \<Rightarrow> Inl e | Inr b \<Rightarrow> if b then every_e p xs else Inr False)"

text \<open>
  \<open>is_in_history(filter_array)\<close>: every piece of \<open>filter_array.split(' ')\<close> is
  included in \<open>this.storage.history\<close>; \<open>.includes\<close> of a missing history raises.
\<close>

definition is_in_history :: "decision_tree \<Rightarrow> jsstring \<Rightarrow> error + bool" where
  "is_in_history this filter_array =
     every_e (\<lambda>object. case history (storage this) of
                          None \<Rightarrow> Inl TypeError
                        | Some h \<Rightarrow> Inr (Some object \<in> set h))
       (js_split 0x20 filter_array)"

text \<open>A summary \<open>li\<close>: its attributes \<open>data-pass-filter\<close> and \<open>data-stop-filter\<close>, when it has them.\<close>

record summary_li =
  data_pass_filter :: "jsstring option"
  data_stop_filter :: "jsstring option"

text \<open>The \<open>forEach\<close> over the stop groups: every group is tested, none is skipped.\<close>

fun stop_forEach :: "decision_tree \<Rightarrow> jsstring list \<Rightarrow> bool \<Rightarrow> error + bool" where
  "stop_forEach this [] show_step = Inr show_step"
| "stop_forEach this (and_group # rest) show_step =
     (case is_in_history this (trim and_group) of
        Inl e \<Rightarrow> Inl e
      | Inr result \<Rightarrow>
          stop_forEach this rest
            (if show_step = True \<and> result = True then False else show_step))"

text \<open>
  The body of the loop of \<open>filter\<close> for one \<open>li\<close>: the value of \<open>show_step\<close> that
  decides between \<open>hide(info)\<close> and \<open>show(info)\<close>.
\<close>

definition filter_li :: "decision_tree \<Rightarrow> summary_li \<Rightarrow> error + bool" where
  "filter_li this info =
     (case (case data_pass_filter info of
              None \<Rightarrow> Inr True
            | Some v \<Rightarrow> every_e (\<lambda>and_group. is_in_history this (trim and_group)) (js_split 0x2C v)) of
        Inl e \<Rightarrow> Inl e
      | Inr show_step \<Rightarrow>
          (case data_stop_filter info of
             None \<Rightarrow> Inr show_step
           | Some v \<Rightarrow> stop_forEach this (js_split 0x2C v) show_step))"

section \<open>Notions for the properties\<close>

subsection \<open>What the filter computes\<close>

text \<open>
  The value of \<open>is_in_history(and.trim())\<close> when there is a history: every piece of
  the trimmed group between single spaces, empty pieces included, is in the history.
\<close>

definition group_included :: "jsstr list \<Rightarrow> jsstring \<Rightarrow> bool" where
  "group_included h g = (\<forall>i \<in> set (js_split 0x20 (trim g)). Some i \<in> set h)"

text \<open>The value of \<open>pass.every(...)\<close>, over every piece between commas.\<close>

definition pass_filter_holds :: "jsstr list \<Rightarrow> summary_li \<Rightarrow> bool" where
  "pass_filter_holds h info =
     (case data_pass_filter info of
        None \<Rightarrow> True
      | Some e \<Rightarrow> (\<forall>g \<in> set (js_split 0x2C e). group_included h g))"

text \<open>Whether the loop over the stop groups finds one that is included.\<close>

definition stop_filter_holds :: "jsstr list \<Rightarrow> summary_li \<Rightarrow> bool" where
  "stop_filter_holds h info =
     (case data_stop_filter info of
        None \<Rightarrow> False
      | Some e \<Rightarrow> (\<exists>g \<in> set (js_split 0x2C e). group_included h g))"

subsection \<open>Filter expressions, as the specification words them\<close>

text \<open>
  An expression is a comma-separated list of AND-groups, and an AND-group is a
  space-separated list of identifiers. The items of a list separated by \<open>c\<close> are
  the maximal runs of characters other than \<open>c\<close> that are not empty. (\<open>cur\<close> is
  the run being read, last character first.)
\<close>

fun items_from :: "'a \<Rightarrow> 'a list \<Rightarrow> 'a list \<Rightarrow> 'a list list" where
  "items_from c cur [] = (if cur = [] then [] else [rev cur])"
| "items_from c cur (x # xs) =
     (if x = c then (if cur = [] then items_from c [] xs else rev cur # items_from c [] xs)
      else items_from c (x # cur) xs)"

definition items :: "'a \<Rightarrow> 'a list \<Rightarrow> 'a list list" where
  "items c s = items_from c [] s"

text \<open>An AND-group is satisfied when every identifier of it is in the history.\<close>

definition and_group_satisfied :: "jsstr list \<Rightarrow> jsstring \<Rightarrow> bool" where
  "and_group_satisfied h g = (\<forall>i \<in> set (items 0x20 g). Some i \<in> set h)"

text \<open>The pass expression: every AND-group is satisfied; true when there is no expression.\<close>

definition passSatisfied :: "jsstr list \<Rightarrow> summary_li \<Rightarrow> bool" where
  "passSatisfied h info =
     (case data_pass_filter info of
        None \<Rightarrow> True
      | Some e \<Rightarrow> (\<forall>g \<in> set (items 0x2C e). and_group_satisfied h g))"

text \<open>The stop expression: some AND-group is satisfied; false when there is no expression.\<close>

definition stopSatisfied :: "jsstr list \<Rightarrow> summary_li \<Rightarrow> bool" where
  "stopSatisfied h info =
     (case data_stop_filter info of
        None \<Rightarrow> False
      | Some e \<Rightarrow> (\<exists>g \<in> set (items 0x2C e). and_group_satisfied h g))"

subsection \<open>Well-formed filter expressions\<close>

text \<open>
  An identifier is a non-empty string with no white space and no comma. A well-formed
  AND-group is one or more identifiers with one space between two of them, and any
  number of spaces before the first and after the last. A well-formed expression is one
  or more well-formed AND-groups with one comma between two of them.
\<close>

fun join :: "'a \<Rightarrow> 'a list list \<Rightarrow> 'a list" where
  "join c [] = []"
| "join c [p] = p"
| "join c (p # q # ps) = p @ c # join c (q # ps)"

definition identifier_ok :: "jsstring \<Rightarrow> bool" where
  "identifier_ok i = (i \<noteq> [] \<and> list_all (\<lambda>c. \<not> is_white c \<and> c \<noteq> 0x2C) i)"

text \<open>A group as written: the spaces before, the identifiers, the spaces after.\<close>

type_synonym written_group = "nat \<times> jsstring list \<times> nat"

fun render_group :: "written_group \<Rightarrow> jsstring" where
  "render_group (before, ids, after) = replicate before 0x20 @ join 0x20 ids @ replicate after 0x20"

fun group_ok :: "written_group \<Rightarrow> bool" where
  "group_ok (before, ids, after) = (ids \<noteq> [] \<and> list_all identifier_ok ids)"

definition render :: "written_group list \<Rightarrow> jsstring" where
  "render gs = join 0x2C (map render_group gs)"

definition expression_ok :: "written_group list \<Rightarrow> bool" where
  "expression_ok gs = (gs \<noteq> [] \<and> list_all group_ok gs)"

fun well_formed :: "jsstring option \<Rightarrow> bool" where
  "well_formed None = True"
| "well_formed (Some e) = (\<exists>gs. expression_ok gs \<and> e = render gs)"

subsection \<open>The history invariant\<close>





subsection \<open>Events\<close>





subsection \<open>Example trees\<close>

definition ex_config :: config where
  "ex_config = \<lparr>tree_id = js ''tree'', first_step = Some (js ''a''), steps = [js ''a'', js ''b'']\<rparr>"

definition ex_initial :: storage where
  "ex_initial = \<lparr>s_first_step = Some (js ''a''), active = Some (js ''a''), history = Some [Some (js ''a'')]\<rparr>"

text \<open>The tree of steps \<open>a\<close>, \<open>b\<close> as the constructor leaves it when nothing was persisted.\<close>

definition ex_start :: decision_tree where
  "ex_start = \<lparr>config = ex_config, storage = ex_initial,
      localStorage = Some (Some ex_initial), console = []\<rparr>"

text \<open>The same tree at step \<open>b\<close>, reached from \<open>a\<close>.\<close>

definition ex_tree :: decision_tree where
  "ex_tree = \<lparr>config = ex_config,
      storage = \<lparr>s_first_step = Some (js ''a''), active = Some (js ''b''),
                  history = Some [Some (js ''a''), Some (js ''b'')]\<rparr>,
      localStorage = None, console = []\<rparr>"

text \<open>A persisted entry whose history names a step the page no longer has.\<close>

definition ex_stale :: storage where
  "ex_stale = \<lparr>s_first_step = Some (js ''a''), active = Some (js ''b''),
      history = Some [Some (js ''a''), Some (js ''ghost''), Some (js ''b'')]\<rparr>"


text \<open>A storage object with an active step and an empty history.\<close>

definition ex_empty_history :: storage where
  "ex_empty_history = \<lparr>s_first_step = Some (js ''a''), active = Some (js ''a''), history = Some []\<rparr>"

text \<open>The storage object after an answer whose \<open>href\<close> is \<open>#\<close>: the target is the empty string.\<close>

definition ex_blank :: storage where
  "ex_blank = \<lparr>s_first_step = Some (js ''a''), active = Some [],
      history = Some [Some (js ''a''), Some []]\<rparr>"

text \<open>Two summary entries: pass \<open>a\<close>, two spaces, \<open>b\<close>; and pass \<open>a\<close>, comma.\<close>

definition ex_doubled_space :: summary_li where
  "ex_doubled_space = \<lparr>data_pass_filter = Some (js ''a  b''), data_stop_filter = None\<rparr>"

definition ex_trailing_comma :: summary_li where
  "ex_trailing_comma = \<lparr>data_pass_filter = Some (js ''a,''), data_stop_filter = None\<rparr>"

section \<open>Properties\<close>

subsection \<open>The summary filter\<close>

lemma every_e_total:
  "(\<And>x. x \<in> set xs \<Longrightarrow> p x = Inr (q x)) \<Longrightarrow> every_e p xs = Inr (\<forall>x \<in> set xs. q x)"
  by (induction xs) auto

lemma is_in_history_present:
  assumes "history (storage this) = Some h"
  shows "is_in_history this (trim g) = Inr (group_included h g)"
  unfolding is_in_history_def group_included_def
  by (rule every_e_total) (simp add: assms)

lemma stop_forEach_present:
  assumes "history (storage this) = Some h"
  shows "stop_forEach this gs b = Inr (b \<and> \<not> (\<exists>g \<in> set gs. group_included h g))"
proof (induction gs arbitrary: b)
  case Nil
  show ?case by simp
next
  case (Cons g gs)
  show ?case
    by (cases b) (auto simp: is_in_history_present [OF assms] Cons.IH)
qed

text \<open>With a history present no call of \<open>filter\<close> raises, and \<open>show_step\<close> is this.\<close>

lemma filter_li_present:
  assumes "history (storage this) = Some h"
  shows "filter_li this info = Inr (pass_filter_holds h info \<and> \<not> stop_filter_holds h info)"
proof -
  have pass: "(case data_pass_filter info of
                 None \<Rightarrow> Inr True
               | Some v \<Rightarrow> every_e (\<lambda>and_group. is_in_history this (trim and_group))
                            (js_split 0x2C v)) = Inr (pass_filter_holds h info)"
  proof (cases "data_pass_filter info")
    case None
    then show ?thesis by (simp add: pass_filter_holds_def)
  next
    case (Some v)
    have "every_e (\<lambda>and_group. is_in_history this (trim and_group)) (js_split 0x2C v)
            = Inr (\<forall>g \<in> set (js_split 0x2C v). group_included h g)"
      by (rule every_e_total) (rule is_in_history_present [OF assms])
    with Some show ?thesis by (simp add: pass_filter_holds_def)
  qed
  show ?thesis
  proof (cases "data_stop_filter info")
    case None
    then show ?thesis by (simp add: filter_li_def pass stop_filter_holds_def)
  next
    case (Some v)
    then show ?thesis
      by (simp add: filter_li_def pass stop_filter_holds_def stop_forEach_present [OF assms])
  qed
qed

subsection \<open>Splitting what was joined\<close>

lemma js_split_no_sep: "c \<notin> set p \<Longrightarrow> js_split c p = [p]"
  by (induction p) auto

lemma js_split_piece: "c \<notin> set p \<Longrightarrow> js_split c (p @ c # rest) = p # js_split c rest"
  by (induction p) auto

lemma js_split_join:
  assumes "ps \<noteq> []" and "\<forall>p \<in> set ps. c \<notin> set p"
  shows "js_split c (join c ps) = ps"
  using assms
proof (induction c ps rule: join.induct)
  case (1 c)
  then show ?case by simp
next
  case (2 c p)
  then show ?case by (simp add: js_split_no_sep)
next
  case (3 c p q ps)
  then show ?case by (simp add: js_split_piece)
qed

lemma items_from_run:
  "c \<notin> set p \<Longrightarrow> items_from c cur (p @ rest) = items_from c (rev p @ cur) rest"
  by (induction p arbitrary: cur) auto

lemma items_from_seps: "items_from c [] (replicate n c @ rest) = items_from c [] rest"
  by (induction n) auto

lemma items_from_only_seps: "items_from c cur (replicate n c) = items_from c cur []"
proof (cases n)
  case 0
  then show ?thesis by simp
next
  case (Suc m)
  have "items_from c [] (replicate m c) = []"
    using items_from_seps [of c m "[]"] by simp
  with Suc show ?thesis by simp
qed

lemma items_from_trailing: "items_from c cur (s @ replicate n c) = items_from c cur s"
proof (induction s arbitrary: cur)
  case Nil
  then show ?case by (simp add: items_from_only_seps)
next
  case (Cons x s)
  then show ?case by simp
qed

lemma items_join:
  assumes "\<forall>p \<in> set ps. p \<noteq> [] \<and> c \<notin> set p"
  shows "items_from c [] (join c ps) = ps"
  using assms
proof (induction c ps rule: join.induct)
  case (1 c)
  then show ?case by simp
next
  case (2 c p)
  then show ?case using items_from_run [of c p "[]" "[]"] by simp
next
  case (3 c p q ps)
  then show ?case using items_from_run [of c p "[]" "c # join c (q # ps)"] by simp
qed

subsection \<open>Well-formed groups\<close>

lemma is_white_space: "is_white 0x20"
  by (simp add: is_white_def)

lemma identifier_no_space: "identifier_ok i \<Longrightarrow> 0x20 \<notin> set i"
  using is_white_space by (auto simp: identifier_ok_def list_all_iff)

lemma identifier_nonempty: "identifier_ok i \<Longrightarrow> i \<noteq> []"
  by (simp add: identifier_ok_def)

lemma identifier_no_comma: "identifier_ok i \<Longrightarrow> 0x2C \<notin> set i"
  by (auto simp: identifier_ok_def list_all_iff)

lemma join_nonempty: "ps \<noteq> [] \<Longrightarrow> hd ps \<noteq> [] \<Longrightarrow> join c ps \<noteq> []"
  by (induction c ps rule: join.induct) auto

lemma hd_join: "ps \<noteq> [] \<Longrightarrow> hd ps \<noteq> [] \<Longrightarrow> hd (join c ps) = hd (hd ps)"
  by (induction c ps rule: join.induct) auto

lemma join_nonempty_last: "ps \<noteq> [] \<Longrightarrow> last ps \<noteq> [] \<Longrightarrow> join c ps \<noteq> []"
  by (induction c ps rule: join.induct) auto

lemma last_join: "ps \<noteq> [] \<Longrightarrow> last ps \<noteq> [] \<Longrightarrow> last (join c ps) = last (last ps)"
proof (induction c ps rule: join.induct)
  case (1 c)
  then show ?case by simp
next
  case (2 c p)
  then show ?case by simp
next
  case (3 c p q ps)
  then have "join c (q # ps) \<noteq> []" by (intro join_nonempty_last) simp_all
  with 3 show ?case by simp
qed

lemma set_join: "set (join c ps) \<subseteq> insert c (\<Union>p \<in> set ps. set p)"
  by (induction c ps rule: join.induct) auto

lemma dropWhile_replicate: "P a \<Longrightarrow> dropWhile P (replicate n a @ xs) = dropWhile P xs"
  by (induction n) auto

lemma dropWhile_none: "xs \<noteq> [] \<Longrightarrow> \<not> P (hd xs) \<Longrightarrow> dropWhile P xs = xs"
  by (cases xs) auto

lemma trim_padded:
  assumes "t \<noteq> []" and "\<not> is_white (hd t)" and "\<not> is_white (last t)"
  shows "trim (replicate m 0x20 @ t @ replicate n 0x20) = t"
proof -
  have "dropWhile is_white (replicate m 0x20 @ t @ replicate n 0x20) = t @ replicate n 0x20"
    using assms(1,2) by (simp add: dropWhile_replicate is_white_space dropWhile_none)
  moreover have "dropWhile is_white (rev (t @ replicate n 0x20)) = rev t"
    using assms(1,3)
    by (simp add: dropWhile_replicate is_white_space dropWhile_none hd_rev)
  ultimately show ?thesis by (simp add: trim_def)
qed

lemma group_ok_facts:
  assumes "group_ok (m, ids, n)"
  shows "ids \<noteq> []" and "\<forall>i \<in> set ids. identifier_ok i"
    and "join 0x20 ids \<noteq> []"
    and "\<not> is_white (hd (join 0x20 ids))" and "\<not> is_white (last (join 0x20 ids))"
proof -
  from assms show ne: "ids \<noteq> []" and all: "\<forall>i \<in> set ids. identifier_ok i"
    by (simp_all add: list_all_iff)
  have h: "identifier_ok (hd ids)" and l: "identifier_ok (last ids)"
    using ne all by simp_all
  then have hne: "hd ids \<noteq> []" and lne: "last ids \<noteq> []"
    by (simp_all add: identifier_ok_def)
  show "join 0x20 ids \<noteq> []" by (rule join_nonempty [OF ne hne])
  have "\<not> is_white (hd (hd ids))" and "\<not> is_white (last (last ids))"
    using h l hne lne by (auto simp: identifier_ok_def list_all_iff)
  then show "\<not> is_white (hd (join 0x20 ids))" and "\<not> is_white (last (join 0x20 ids))"
    by (simp_all add: hd_join [OF ne hne] last_join [OF ne lne])
qed

lemma trim_render_group:
  assumes "group_ok (m, ids, n)"
  shows "trim (render_group (m, ids, n)) = join 0x20 ids"
  using group_ok_facts(3,4,5) [OF assms] by (simp add: trim_padded)

lemma group_included_rendered:
  assumes "group_ok (m, ids, n)"
  shows "group_included h (render_group (m, ids, n)) = (\<forall>i \<in> set ids. Some i \<in> set h)"
proof -
  have "js_split 0x20 (join 0x20 ids) = ids"
    using group_ok_facts(1,2) [OF assms] by (intro js_split_join) (auto dest: identifier_no_space)
  then show ?thesis
    by (simp add: group_included_def trim_render_group [OF assms] del: render_group.simps)
qed

lemma and_group_satisfied_rendered:
  assumes "group_ok (m, ids, n)"
  shows "and_group_satisfied h (render_group (m, ids, n)) = (\<forall>i \<in> set ids. Some i \<in> set h)"
proof -
  have "\<forall>i \<in> set ids. i \<noteq> [] \<and> 0x20 \<notin> set i"
    using group_ok_facts(2) [OF assms] identifier_no_space identifier_nonempty by blast
  then have "items_from 0x20 [] (join 0x20 ids) = ids"
    by (rule items_join)
  then have "items 0x20 (render_group (m, ids, n)) = ids"
    by (simp add: items_def items_from_seps items_from_trailing)
  then show ?thesis by (simp add: and_group_satisfied_def del: render_group.simps)
qed

lemma rendered_group_same:
  assumes "group_ok g"
  shows "group_included h (render_group g) = and_group_satisfied h (render_group g)"
proof -
  obtain m ids n where g: "g = (m, ids, n)" by (cases g)
  show ?thesis
    using assms unfolding g
    by (simp only: group_included_rendered and_group_satisfied_rendered)
qed

lemma rendered_group_plain:
  assumes "group_ok g"
  shows "render_group g \<noteq> []" and "0x2C \<notin> set (render_group g)"
proof -
  obtain m ids n where g: "g = (m, ids, n)" by (cases g)
  from assms g have ok: "group_ok (m, ids, n)" by simp
  show "render_group g \<noteq> []"
    using group_ok_facts(3) [OF ok] by (simp add: g)
  have "set (join 0x20 ids) \<subseteq> insert 0x20 (\<Union>i \<in> set ids. set i)"
    by (rule set_join)
  moreover have "\<forall>i \<in> set ids. 0x2C \<notin> set i"
    using group_ok_facts(2) [OF ok] by (auto dest: identifier_no_comma)
  ultimately have "(0x2C :: code_unit) \<notin> set (join 0x20 ids)" by auto
  then show "0x2C \<notin> set (render_group g)" by (auto simp: g)
qed

subsection \<open>Well-formed expressions\<close>

lemma expression_groups:
  assumes "expression_ok gs"
  shows "js_split 0x2C (render gs) = map render_group gs"
    and "items 0x2C (render gs) = map render_group gs"
proof -
  from assms have ne: "gs \<noteq> []" and ok: "\<forall>g \<in> set gs. group_ok g"
    by (simp_all add: expression_ok_def list_all_iff)
  show "js_split 0x2C (render gs) = map render_group gs"
    unfolding render_def using ne ok
    by (intro js_split_join) (auto dest: rendered_group_plain(2))
  show "items 0x2C (render gs) = map render_group gs"
    unfolding render_def items_def using ok
    by (intro items_join) (auto dest: rendered_group_plain)
qed

lemma well_formed_pass:
  assumes "well_formed (data_pass_filter info)"
  shows "pass_filter_holds h info = passSatisfied h info"
proof (cases "data_pass_filter info")
  case None
  then show ?thesis by (simp add: pass_filter_holds_def passSatisfied_def)
next
  case (Some e)
  with assms obtain gs where gs: "expression_ok gs" and e: "e = render gs" by auto
  from gs have ok: "\<forall>g \<in> set gs. group_ok g"
    by (simp add: expression_ok_def list_all_iff)
  show ?thesis
    using ok
    by (simp add: pass_filter_holds_def passSatisfied_def Some e expression_groups [OF gs]
          rendered_group_same)
qed

lemma well_formed_stop:
  assumes "well_formed (data_stop_filter info)"
  shows "stop_filter_holds h info = stopSatisfied h info"
proof (cases "data_stop_filter info")
  case None
  then show ?thesis by (simp add: stop_filter_holds_def stopSatisfied_def)
next
  case (Some e)
  with assms obtain gs where gs: "expression_ok gs" and e: "e = render gs" by auto
  from gs have ok: "\<forall>g \<in> set gs. group_ok g"
    by (simp add: expression_ok_def list_all_iff)
  show ?thesis
    using ok
    by (simp add: stop_filter_holds_def stopSatisfied_def Some e expression_groups [OF gs]
          rendered_group_same)
qed

text \<open>
  Claim C3, as amended. For every history and every summary entry whose pass and stop
  expressions, where it declares them, are well-formed -- one or more AND-groups with a
  comma between two of them, each group one or more identifiers with a single space
  between two of them and any number of spaces around the group, an identifier being a
  non-empty string with no white space and no comma -- \<open>filter\<close> shows the entry
  exactly when every AND-group of its pass expression has all of its identifiers in the
  history (true when the entry declares no pass expression) and no AND-group of its stop
  expression is fully in the history: visible = passSatisfied and not stopSatisfied.
\<close>

theorem filter_visible:
  assumes "history (storage this) = Some h"
    and "well_formed (data_pass_filter info)" and "well_formed (data_stop_filter info)"
  shows "filter_li this info = Inr (passSatisfied h info \<and> \<not> stopSatisfied h info)"
  using filter_li_present [OF assms(1), of info]
  by (simp add: well_formed_pass [OF assms(2)] well_formed_stop [OF assms(3)])

text \<open>
  The examples of the specification: with the history \<open>a\<close>, \<open>b\<close>, the pass
  expression \<open>a b\<close> shows the entry, \<open>a c\<close> hides it, and pass \<open>a\<close> with stop \<open>b\<close>
  hides it. With a space after the comma, \<open>a, b\<close> shows it.
\<close>

theorem filter_visible_witness:
  "history (storage ex_tree) = Some [Some (js ''a''), Some (js ''b'')] \<and>
   well_formed None \<and> well_formed (Some (js ''a b'')) \<and> well_formed (Some (js ''a c'')) \<and>
   well_formed (Some (js ''a'')) \<and> well_formed (Some (js ''b'')) \<and>
   well_formed (Some (js ''a, b'')) \<and>
   filter_li ex_tree \<lparr>data_pass_filter = Some (js ''a b''), data_stop_filter = None\<rparr> = Inr True \<and>
   filter_li ex_tree \<lparr>data_pass_filter = Some (js ''a c''), data_stop_filter = None\<rparr> = Inr False \<and>
   filter_li ex_tree \<lparr>data_pass_filter = Some (js ''a''), data_stop_filter = Some (js ''b'')\<rparr> =
     Inr False \<and>
   filter_li ex_tree \<lparr>data_pass_filter = Some (js ''a, b''), data_stop_filter = None\<rparr> = Inr True"
proof -
  have h: "history (storage ex_tree) = Some [Some (js ''a''), Some (js ''b'')]"
    by (simp add: ex_tree_def)
  have ab: "well_formed (Some (js ''a b''))"
    by (simp, rule exI [of _ "[(0, [js ''a'', js ''b''], 0)]"])
       (simp add: expression_ok_def render_def identifier_ok_def is_white_def)
  have ac: "well_formed (Some (js ''a c''))"
    by (simp, rule exI [of _ "[(0, [js ''a'', js ''c''], 0)]"])
       (simp add: expression_ok_def render_def identifier_ok_def is_white_def)
  have a: "well_formed (Some (js ''a''))"
    by (simp, rule exI [of _ "[(0, [js ''a''], 0)]"])
       (simp add: expression_ok_def render_def identifier_ok_def is_white_def)
  have b: "well_formed (Some (js ''b''))"
    by (simp, rule exI [of _ "[(0, [js ''b''], 0)]"])
       (simp add: expression_ok_def render_def identifier_ok_def is_white_def)
  have a_b: "well_formed (Some (js ''a, b''))"
    by (simp, rule exI [of _ "[(0, [js ''a''], 0), (Suc 0, [js ''b''], 0)]"])
       (simp add: expression_ok_def render_def identifier_ok_def is_white_def)
  have n: "well_formed None" by simp
  have "filter_li ex_tree \<lparr>data_pass_filter = Some (js ''a b''), data_stop_filter = None\<rparr> =
      Inr True"
    using filter_visible [OF h, of "\<lparr>data_pass_filter = Some (js ''a b''), data_stop_filter = None\<rparr>"]
      ab n
    by (simp add: passSatisfied_def stopSatisfied_def and_group_satisfied_def items_def)
  moreover
  have "filter_li ex_tree \<lparr>data_pass_filter = Some (js ''a c''), data_stop_filter = None\<rparr> =
      Inr False"
    using filter_visible [OF h, of "\<lparr>data_pass_filter = Some (js ''a c''), data_stop_filter = None\<rparr>"]
      ac n
    by (simp add: passSatisfied_def stopSatisfied_def and_group_satisfied_def items_def)
  moreover
  have "filter_li ex_tree \<lparr>data_pass_filter = Some (js ''a''), data_stop_filter = Some (js ''b'')\<rparr> =
      Inr False"
    using filter_visible [OF h,
        of "\<lparr>data_pass_filter = Some (js ''a''), data_stop_filter = Some (js ''b'')\<rparr>"] a b
    by (simp add: passSatisfied_def stopSatisfied_def and_group_satisfied_def items_def)
  moreover
  have "filter_li ex_tree \<lparr>data_pass_filter = Some (js ''a, b''), data_stop_filter = None\<rparr> =
      Inr True"
    using filter_visible [OF h, of "\<lparr>data_pass_filter = Some (js ''a, b''), data_stop_filter = None\<rparr>"]
      a_b n
    by (simp add: passSatisfied_def stopSatisfied_def and_group_satisfied_def items_def)
  ultimately show ?thesis using h ab ac a b a_b n by blast
qed

text \<open>
  Claim C3 as stated fails where an expression is not of that form, because the code
  counts an empty piece as an identifier. With the history \<open>a\<close>, \<open>b\<close>: the pass
  expression \<open>a\<close>, two spaces, \<open>b\<close> has its two identifiers in the history, and
  \<open>filter\<close> hides the entry (the piece between the two spaces is empty, and the empty
  string is not in the history); so for \<open>a\<close> followed by a comma, whose one AND-group
  \<open>a\<close> is satisfied.
\<close>

theorem filter_hides_doubled_space:
  "history (storage ex_tree) = Some [Some (js ''a''), Some (js ''b'')] \<and>
   passSatisfied [Some (js ''a''), Some (js ''b'')] ex_doubled_space \<and>
   \<not> stopSatisfied [Some (js ''a''), Some (js ''b'')] ex_doubled_space \<and>
   filter_li ex_tree ex_doubled_space = Inr False \<and>
   passSatisfied [Some (js ''a''), Some (js ''b'')] ex_trailing_comma \<and>
   \<not> stopSatisfied [Some (js ''a''), Some (js ''b'')] ex_trailing_comma \<and>
   filter_li ex_tree ex_trailing_comma = Inr False"
  by (simp add: ex_tree_def ex_doubled_space_def ex_trailing_comma_def passSatisfied_def
        stopSatisfied_def and_group_satisfied_def items_def filter_li_def is_in_history_def
        trim_def is_white_def)

text \<open>\<open>trim\<close> removes the no-break space as it removes the space.\<close>

lemma trim_no_break_space: "trim (0x20 # js ''a'' @ [0xA0]) = js ''a''"
  by (simp add: trim_def is_white_def)


subsection \<open>The invariant is kept by every event with a known target\<close>

















subsection \<open>Loading a stale history\<close>

text \<open>
  When the steps are not empty and some element of the persisted history is not a step,
  \<open>_loadStorage\<close> returns the first step as active step and as only element of the
  history. The item it leaves in the local storage is \<open>{}\<close>: \<open>_saveStorage\<close> read
  the parsed object where the storage object was meant.
\<close>

lemma load_stale_history:
  assumes "steps cfg \<noteq> []" and "history entry = Some h"
    and "\<not> list_all (in_steps (steps cfg)) h"
  shows "loadStorage cfg (Some (Some entry)) =
           (entry\<lparr>history := Some [first_step cfg], active := first_step cfg\<rparr>, Some None)"
proof -
  from assms(3) have "h \<noteq> []" by auto
  with assms show ?thesis by (simp add: loadStorage_def validateHistory_def)
qed

text \<open>
  Claim C2, on the example of the specification. The persisted history is \<open>a\<close>,
  \<open>ghost\<close>, \<open>b\<close> and the steps are \<open>a\<close>, \<open>b\<close>. \<open>_loadStorage\<close> returns the initial
  state, and the local storage item it leaves is \<open>{}\<close>, not the initial state.
\<close>

theorem load_stale_history_clears_item:
  "fst (loadStorage ex_config (Some (Some ex_stale))) = ex_initial \<and>
   snd (loadStorage ex_config (Some (Some ex_stale))) = Some None"
  by (simp add: loadStorage_def validateHistory_def ex_config_def ex_stale_def ex_initial_def
        in_steps_def)

text \<open>
  The constructor goes on to \<open>activate\<close>, whose own \<open>_saveStorage\<close> writes the
  initial state when its DOM calls return; when one of them raises, the item stays
  \<open>{}\<close>.
\<close>

lemma constructor_after_stale_history:
  "constructor_dt (js ''tree'') [js ''a'', js ''b''] (Some (Some ex_stale)) True = Inr ex_start"
  "localStorage (projr (constructor_dt (js ''tree'') [js ''a'', js ''b''] (Some (Some ex_stale)) False)) =
     Some None"
  by (simp_all add: constructor_dt_def loadSteps_def Array_isArray_def loadStorage_def
        validateHistory_def in_steps_def activate_def ex_stale_def ex_start_def ex_config_def
        ex_initial_def truthy_def)

subsection \<open>Answers\<close>

text \<open>
  Claim C4, as amended. For every state with a history and every answer, whether its
  target is one of the steps or not, \<open>trackAnswer\<close> makes the transition, with no
  look at the steps: the target becomes the active step and the last element of the
  history, and the state is saved (the item holds the new state when the target is a
  non-empty string, and is \<open>{}\<close> when the target is the empty string). This is done
  when the DOM calls that follow are reached, so however they complete.
\<close>

theorem answer_unknown_target_proceeds:
  assumes "history (storage this) = Some h"
  shows "trackAnswer x dk domc this =
     (domc,
      this\<lparr>storage := (storage this)\<lparr>active := Some x, history := Some (h @ [Some x])\<rparr>,
           localStorage :=
             (if x = [] then Some None
              else Some (Some ((storage this)\<lparr>active := Some x,
                                             history := Some (h @ [Some x])\<rparr>)))\<rparr>)"
  using assms by (simp add: trackAnswer_def truthy_def Let_def)

theorem answer_unknown_target_proceeds_witness:
  "history (storage ex_start) = Some [Some (js ''a'')] \<and> (js ''ghost'') \<notin> set (steps (config ex_start)) \<and>
   trackAnswer (js ''ghost'') None Normal ex_start =
     (Normal,
      ex_start\<lparr>storage := ex_initial\<lparr>active := Some (js ''ghost''),
                                      history := Some [Some (js ''a''), Some (js ''ghost'')]\<rparr>,
               localStorage := Some (Some (ex_initial\<lparr>active := Some (js ''ghost''),
                                      history := Some [Some (js ''a''), Some (js ''ghost'')]\<rparr>))\<rparr>)"
proof -
  have h: "history (storage ex_start) = Some [Some (js ''a'')]"
    by (simp add: ex_start_def ex_initial_def)
  have x: "js ''ghost'' \<notin> set (steps (config ex_start))"
    by (simp add: ex_start_def ex_config_def)
  show ?thesis
    using h x answer_unknown_target_proceeds [OF h, of "js ''ghost''" None Normal]
    by (simp add: ex_start_def)
qed

text \<open>
  Claim C4 as stated fails: in the tree of steps \<open>a\<close>, \<open>b\<close> at its initial state, the
  answer \<open>ghost\<close> makes \<open>ghost\<close> the active step, appends it to the history and writes
  that state to the local storage. The tree has no element \<open>ghost\<close>, so
  \<open>_showSummary\<close> then raises a TypeError: the state is changed and persisted all the
  same.
\<close>

theorem answer_unknown_target_changes_history:
  "js ''ghost'' \<notin> set (steps (config ex_start)) \<and>
   active (storage ex_start) = Some (js ''a'') \<and>
   active (storage (snd (trackAnswer (js ''ghost'') None (Throw TypeError) ex_start))) = Some (js ''ghost'') \<and>
   history (storage ex_start) = Some [Some (js ''a'')] \<and>
   history (storage (snd (trackAnswer (js ''ghost'') None (Throw TypeError) ex_start))) =
     Some [Some (js ''a''), Some (js ''ghost'')] \<and>
   localStorage (snd (trackAnswer (js ''ghost'') None (Throw TypeError) ex_start)) =
     Some (Some \<lparr>s_first_step = Some (js ''a''), active = Some (js ''ghost''),
                 history = Some [Some (js ''a''), Some (js ''ghost'')]\<rparr>)"
  by (simp add: trackAnswer_def ex_start_def ex_config_def ex_initial_def truthy_def Let_def)

subsection \<open>Back\<close>

text \<open>
  Claim C5, as amended. For every state with a history: when the history has at most
  one element, \<open>trackBackButton\<close> returns at once, before any other call, and
  nothing is changed, saved or warned of; when it has more, the second-to-last element
  becomes the active step, the last element is removed, and the resulting state is saved
  (the item holds it when the new active step is a non-empty string). Nothing else of
  the tree changes.
\<close>

theorem back_behaviour:
  assumes "history (storage this) = Some h"
  shows "(length h \<le> 1 \<longrightarrow> trackBackButton domc this = (Normal, this)) \<and>
         (1 < length h \<longrightarrow>
            fst (trackBackButton domc this) = domc \<and>
            active (storage (snd (trackBackButton domc this))) = h ! (length h - 2) \<and>
            history (storage (snd (trackBackButton domc this))) = Some (butlast h) \<and>
            s_first_step (storage (snd (trackBackButton domc this))) = s_first_step (storage this) \<and>
            localStorage (snd (trackBackButton domc this)) =
              saveStorage (StateObj (storage (snd (trackBackButton domc this)))) (localStorage this) \<and>
            (truthy (h ! (length h - 2)) \<longrightarrow>
               localStorage (snd (trackBackButton domc this)) =
                 Some (Some (storage (snd (trackBackButton domc this))))) \<and>
            config (snd (trackBackButton domc this)) = config this \<and>
            console (snd (trackBackButton domc this)) = console this)"
  using assms by (simp add: trackBackButton_def Let_def)

theorem back_behaviour_witness:
  "history (storage ex_tree) = Some [Some (js ''a''), Some (js ''b'')] \<and>
   history (storage ex_start) = Some [Some (js ''a'')] \<and>
   trackBackButton Normal ex_start = (Normal, ex_start) \<and>
   fst (trackBackButton Normal ex_tree) = Normal \<and>
   active (storage (snd (trackBackButton Normal ex_tree))) = Some (js ''a'') \<and>
   history (storage (snd (trackBackButton Normal ex_tree))) = Some [Some (js ''a'')] \<and>
   localStorage (snd (trackBackButton Normal ex_tree)) =
     Some (Some (storage (snd (trackBackButton Normal ex_tree))))"
proof -
  have h2: "history (storage ex_tree) = Some [Some (js ''a''), Some (js ''b'')]"
    by (simp add: ex_tree_def)
  have h1: "history (storage ex_start) = Some [Some (js ''a'')]"
    by (simp add: ex_start_def ex_initial_def)
  show ?thesis
    using h1 h2 back_behaviour [OF h1, of Normal] back_behaviour [OF h2, of Normal]
    by (simp add: truthy_def)
qed

text \<open>
  Claim C5 as stated fails in the word "reported": on a history of one element
  \<open>trackBackButton\<close> returns normally, as it does after a step back, the console is
  as it was, and the tree is the one it was given.
\<close>

theorem back_on_single_step_is_silent:
  "history (storage ex_start) = Some [Some (js ''a'')] \<and>
   fst (trackBackButton Normal ex_start) = Normal \<and>
   console (snd (trackBackButton Normal ex_start)) = console ex_start \<and>
   snd (trackBackButton Normal ex_start) = ex_start"
  by (simp add: trackBackButton_def ex_start_def ex_initial_def)

subsection \<open>Saving\<close>

text \<open>The guard of \<open>_saveStorage\<close>, read on the storage object.\<close>

lemma saveStorage_guard:
  "saveStorage (StateObj st) ls =
     (if active st = None \<or> active st = Some [] \<or> history st = None
      then Some None else Some (Some st))"
  by (cases "active st") (auto simp: truthy_def)

text \<open>
  Claim C6, as amended. For every state in which the active step is unset or the empty
  string, or the history is unset, \<open>_saveStorage\<close> leaves the item \<open>{}\<close>, with no
  entry for the tree; for every state whose active step is a non-empty string and whose
  history is a non-empty list, it overwrites the item with that state, whatever the item
  held before.
\<close>

theorem save_clears_or_overwrites:
  "(active st = None \<or> active st = Some [] \<or> history st = None \<longrightarrow>
      saveStorage (StateObj st) ls = Some None) \<and>
   (\<forall>a h. active st = Some a \<and> a \<noteq> [] \<and> history st = Some h \<and> h \<noteq> [] \<longrightarrow>
      saveStorage (StateObj st) ls = Some (Some st))"
  by (simp add: saveStorage_guard del: saveStorage.simps)

theorem save_clears_or_overwrites_witness:
  "saveStorage (StateObj ex_initial) (Some (Some ex_stale)) = Some (Some ex_initial) \<and>
   saveStorage (StateObj (ex_initial\<lparr>active := Some []\<rparr>)) (Some (Some ex_stale)) = Some None \<and>
   saveStorage (StateObj (ex_initial\<lparr>active := None\<rparr>)) (Some (Some ex_stale)) = Some None \<and>
   saveStorage (StateObj (ex_initial\<lparr>history := None\<rparr>)) (Some (Some ex_stale)) = Some None"
  using save_clears_or_overwrites [of ex_initial "Some (Some ex_stale)"]
    save_clears_or_overwrites [of "ex_initial\<lparr>active := Some []\<rparr>" "Some (Some ex_stale)"]
    save_clears_or_overwrites [of "ex_initial\<lparr>active := None\<rparr>" "Some (Some ex_stale)"]
    save_clears_or_overwrites [of "ex_initial\<lparr>history := None\<rparr>" "Some (Some ex_stale)"]
  by (simp add: ex_initial_def)

text \<open>
  Claim C6 as stated fails on both sides. A state with an active step and an empty
  history is written to the item, not cleared: an empty array is not falsy. A state
  whose active step is the empty string is cleared although its history is not empty.
\<close>

theorem save_keeps_empty_history:
  "active ex_empty_history = Some (js ''a'') \<and> history ex_empty_history = Some [] \<and>
   saveStorage (StateObj ex_empty_history) (Some (Some ex_initial)) =
     Some (Some ex_empty_history) \<and>
   active ex_blank = Some [] \<and> history ex_blank = Some [Some (js ''a''), Some []] \<and>
   saveStorage (StateObj ex_blank) (Some (Some ex_initial)) = Some None"
  by (simp add: ex_empty_history_def ex_blank_def truthy_def)

subsection \<open>Restart\<close>

text \<open>
  Claim C7. For every state, \<open>trackRestartButton\<close> twice leaves what it leaves once
  (the storage object, the local storage item and all the rest of the tree): the active
  step is the first step and the history is the first step alone.
\<close>

theorem restart_idempotent:
  "snd (trackRestartButton domc' (snd (trackRestartButton domc this))) =
     snd (trackRestartButton domc this) \<and>
   active (storage (snd (trackRestartButton domc this))) = first_step (config this) \<and>
   history (storage (snd (trackRestartButton domc this))) = Some [first_step (config this)]"
  by (simp add: trackRestartButton_def Let_def)

theorem restart_idempotent_witness:
  "snd (trackRestartButton Normal (snd (trackRestartButton Normal ex_tree))) = ex_start \<and>
   snd (trackRestartButton Normal ex_tree) = ex_start"
proof -
  have "snd (trackRestartButton Normal ex_tree) = ex_start"
    by (simp add: trackRestartButton_def ex_tree_def ex_start_def ex_initial_def ex_config_def
          truthy_def Let_def)
  then show ?thesis using restart_idempotent [of Normal Normal ex_tree] by simp
qed

subsection \<open>Answer, then Back\<close>

text \<open>
  Claim C8. For every state whose history is not empty and ends with the active step,
  and every target \<open>x\<close>, \<open>trackAnswer\<close> of \<open>x\<close> followed by \<open>trackBackButton\<close>
  gives back the storage object it started from: the active step, the history (element
  by element, so its length too) and the rest. Neither of the two raises for a missing
  history: each completes as its DOM calls do.
\<close>

theorem answer_then_back_restores:
  assumes "history (storage this) = Some h" and "h \<noteq> []" and "last h = active (storage this)"
  shows "fst (trackAnswer x dk domc this) = domc \<and>
         fst (trackBackButton domc' (snd (trackAnswer x dk domc this))) = domc' \<and>
         storage (snd (trackBackButton domc' (snd (trackAnswer x dk domc this)))) = storage this"
proof -
  let ?st = "(storage this)\<lparr>active := Some x, history := Some (h @ [Some x])\<rparr>"
  let ?t = "this\<lparr>storage := ?st, localStorage := saveStorage (StateObj ?st) (localStorage this)\<rparr>"
  have a: "trackAnswer x dk domc this = (domc, ?t)"
    by (simp add: trackAnswer_def assms(1) Let_def del: saveStorage.simps)
  have len: "\<not> length (h @ [Some x]) \<le> 1" using assms(2) by (cases h) auto
  have prev: "(h @ [Some x]) ! (length (h @ [Some x]) - 2) = last h"
    using assms(2) by (simp add: nth_append last_conv_nth)
  have b: "fst (trackBackButton domc' ?t) = domc'"
    using len by (simp add: trackBackButton_def Let_def del: saveStorage.simps)
  have "storage (snd (trackBackButton domc' ?t)) = ?st\<lparr>active := last h, history := Some h\<rparr>"
    using len prev by (simp add: trackBackButton_def Let_def del: saveStorage.simps)
  also have "\<dots> = storage this"
    using assms(1,3) by simp
  finally show ?thesis using a b by simp
qed

theorem answer_then_back_restores_witness:
  "history (storage ex_start) = Some [Some (js ''a'')] \<and> [Some (js ''a'')] \<noteq> [] \<and>
   last [Some (js ''a'')] = active (storage ex_start) \<and>
   fst (trackAnswer (js ''b'') None Normal ex_start) = Normal \<and>
   fst (trackBackButton Normal (snd (trackAnswer (js ''b'') None Normal ex_start))) = Normal \<and>
   storage (snd (trackBackButton Normal (snd (trackAnswer (js ''b'') None Normal ex_start)))) =
     ex_initial"
proof -
  have h: "history (storage ex_start) = Some [Some (js ''a'')]"
    and l: "last [Some (js ''a'')] = active (storage ex_start)"
    by (simp_all add: ex_start_def ex_initial_def)
  have n: "[Some (js ''a'')] \<noteq> []" by simp
  show ?thesis
    using h l answer_then_back_restores [OF h n l, of "js ''b''" None Normal Normal]
    by (simp add: ex_start_def)
qed

subsection \<open>Construction from no steps\<close>

lemma constructor_never_raises: "constructor_dt i ids ls dom_ok \<noteq> Inl e"
  by (simp add: constructor_dt_def loadSteps_def Array_isArray_def Let_def split: prod.splits)

text \<open>
  Claim C9, as amended. For an empty list of steps the constructor raises no error:
  \<open>_loadSteps\<close> warns that the tree should have at least one step and returns the
  empty list, and the constructor goes on with an empty list of steps and an undefined
  first step.
\<close>

theorem constructor_empty_steps_proceeds:
  "\<exists>this. constructor_dt i [] ls dom_ok = Inr this \<and>
      steps (config this) = [] \<and> first_step (config this) = None \<and>
      (js ''Decision tree should have at least one step.'') \<in> set (console this)"
proof -
  let ?cfg = "\<lparr>tree_id = i, first_step = None, steps = []\<rparr>"
  obtain st ls' where l: "loadStorage ?cfg ls = (st, ls')"
    by (cases "loadStorage ?cfg ls")
  let ?t = "activate dom_ok \<lparr>config = ?cfg, storage = st, localStorage = ls',
      console = [js ''Decision tree should have at least one step.'']\<rparr>"
  have "constructor_dt i [] ls dom_ok = Inr ?t"
    by (simp add: constructor_dt_def loadSteps_def Array_isArray_def l)
  moreover have "steps (config ?t) = []" and "first_step (config ?t) = None"
    by (simp_all add: activate_def)
  moreover have "js ''Decision tree should have at least one step.'' \<in> set (console ?t)"
    by (simp add: activate_def)
  ultimately show ?thesis by blast
qed

text \<open>
  Claim C9 as stated fails: with no steps and nothing persisted the constructor returns
  a tree, whose history holds the undefined first step. (The tree has no element for
  that step, so \<open>activate\<close> ends in its \<open>catch\<close>: it hides the tree and warns.)
\<close>

theorem constructor_empty_steps_no_error:
  "constructor_dt (js ''tree'') [] None False =
     Inr \<lparr>config = \<lparr>tree_id = js ''tree'', first_step = None, steps = []\<rparr>,
          storage = \<lparr>s_first_step = None, active = None, history = Some [None]\<rparr>,
          localStorage = None,
          console = [js ''Decision tree should have at least one step.'',
                     (js ''Cannot activate decision tree with ID tree. Incorrect HTML structure.'')]\<rparr>"
  by (simp add: constructor_dt_def loadSteps_def Array_isArray_def loadStorage_def activate_def)

subsection \<open>The empty pass expression\<close>

text \<open>
  Claim C10, as amended. The empty pass expression is one AND-group of one empty
  identifier. For every history that does not contain the empty string, an entry that
  declares it is not visible; when the history contains the empty string, the pass
  check succeeds and the stop expression alone decides.
\<close>

theorem empty_pass_filter:
  assumes "history (storage this) = Some h" and "data_pass_filter info = Some []"
  shows "filter_li this info = Inr (Some [] \<in> set h \<and> \<not> stop_filter_holds h info)"
proof -
  have "is_in_history this (trim []) = Inr (group_included h [])"
    by (rule is_in_history_present [OF assms(1)])
  then have pass: "is_in_history this (trim []) = Inr (Some [] \<in> set h)"
    by (simp add: group_included_def trim_def)
  show ?thesis
  proof (cases "data_stop_filter info")
    case None
    then show ?thesis by (simp add: filter_li_def assms(2) pass stop_filter_holds_def)
  next
    case (Some v)
    then show ?thesis
      by (simp add: filter_li_def assms(2) pass stop_filter_holds_def
            stop_forEach_present [OF assms(1)])
  qed
qed

theorem empty_pass_filter_witness:
  "history (storage ex_tree) = Some [Some (js ''a''), Some (js ''b'')] \<and>
   data_pass_filter \<lparr>data_pass_filter = Some [], data_stop_filter = None\<rparr> = Some [] \<and>
   filter_li ex_tree \<lparr>data_pass_filter = Some [], data_stop_filter = None\<rparr> = Inr False"
proof -
  have h: "history (storage ex_tree) = Some [Some (js ''a''), Some (js ''b'')]"
    by (simp add: ex_tree_def)
  have p: "data_pass_filter \<lparr>data_pass_filter = Some [], data_stop_filter = None\<rparr> = Some []"
    by simp
  show ?thesis using h empty_pass_filter [OF h p] by simp
qed

text \<open>
  Claim C10 as stated fails: after the answer whose target is the empty string (its
  \<open>href\<close> is \<open>#\<close>), the history contains the empty string, and the entry with the
  empty pass expression is shown. (\<open>trackAttribute\<close> raises on the empty id, once
  the history has been extended.)
\<close>

theorem empty_pass_filter_visible:
  "history (storage (snd (trackAnswer [] None (Throw SyntaxError) ex_start))) =
     Some [Some (js ''a''), Some []] \<and>
   filter_li (snd (trackAnswer [] None (Throw SyntaxError) ex_start))
     \<lparr>data_pass_filter = Some [], data_stop_filter = None\<rparr> = Inr True"
  by (simp add: trackAnswer_def ex_start_def ex_initial_def Let_def filter_li_def
        is_in_history_def trim_def)

end
